theory Spec2Isabelle
  imports Main "HOL-Library.Sublist"
begin

section \<open>Strings and the case mappings\<close>

text \<open>
  A language tag is a \<open>string\<close>. The source calls \<^verbatim>\<open>String.prototype.toLowerCase\<close> on
  the requested tag; the model covers ASCII tags (the alphabet of language tags): the
  letters \<open>A\<close> .. \<open>Z\<close> (codes 65 .. 90) go to \<open>a\<close> .. \<open>z\<close> (codes 97 .. 122), every other
  character is left as it is. \<open>toUpperCase\<close> is the mirror image; the source never calls
  it, the specification uses it to state case-insensitivity. On ASCII strings both are
  \<^verbatim>\<open>String.prototype.toLowerCase\<close> and \<^verbatim>\<open>String.prototype.toUpperCase\<close>. Beyond
  ASCII the Unicode mappings differ from these (the upper-case form of the sharp s is
  \<open>SS\<close>, whose lower-case form is \<open>ss\<close>), so every statement on \<open>toUpperCase\<close> is made
  for ASCII strings only, marked by \<open>isAscii\<close>.
\<close>

definition toLowerChar :: "char \<Rightarrow> char" where
  "toLowerChar c =
     (let n = (of_char c :: nat) in if 65 \<le> n \<and> n \<le> 90 then char_of (n + 32) else c)"

definition toUpperChar :: "char \<Rightarrow> char" where
  "toUpperChar c =
     (let n = (of_char c :: nat) in if 97 \<le> n \<and> n \<le> 122 then char_of (n - 32) else c)"

definition toLowerCase :: "string \<Rightarrow> string" where
  "toLowerCase str = map toLowerChar str"

definition toUpperCase :: "string \<Rightarrow> string" where
  "toUpperCase str = map toUpperChar str"

definition isAscii :: "string \<Rightarrow> bool" where
  "isAscii str = list_all (\<lambda>c. (of_char c :: nat) < 128) str"

text \<open>\<^verbatim>\<open>str.startsWith(s)\<close>: \<open>s\<close> is an initial segment of \<open>str\<close>.\<close>

definition startsWith :: "string \<Rightarrow> string \<Rightarrow> bool" where
  "startsWith str s = prefix s str"

text \<open>\<^verbatim>\<open>arr.includes(x)\<close> on an array of strings: some element equals \<open>x\<close>.\<close>

definition arrayIncludes :: "string list \<Rightarrow> string \<Rightarrow> bool" where
  "arrayIncludes arr x = (x \<in> set arr)"

section \<open>The normalizer\<close>

text \<open>
  \<^verbatim>\<open>for (const s of supported) { if (low.startsWith(s)) return s; }\<close>
  The loop is a recursion over the array; \<open>Some s\<close> is the early return, \<open>None\<close> is
  falling out of the loop.
\<close>

fun prefixScan :: "string \<Rightarrow> string list \<Rightarrow> string option" where
  "prefixScan low [] = None"
| "prefixScan low (s # ss) = (if startsWith low s then Some s else prefixScan low ss)"

text \<open>
  \<^verbatim>\<open>normalizeLng(lng: string | undefined, supported, fallback)\<close>. The argument
  \<open>undefined\<close> is \<open>None\<close>; the test \<^verbatim>\<open>!lng\<close> holds for \<open>undefined\<close> and for the empty
  string.
\<close>

definition normalizeLng :: "string option \<Rightarrow> string list \<Rightarrow> string \<Rightarrow> string" where
  "normalizeLng lng supported fallback =
     (case lng of
        None \<Rightarrow> fallback
      | Some l \<Rightarrow>
          if l = [] then fallback
          else let low = toLowerCase l in
            if arrayIncludes supported low then low
            else (case prefixScan low supported of
                    Some s \<Rightarrow> s
                  | None \<Rightarrow> fallback))"

text \<open>
  The return statement that produces the result, in the order of the source: the guard
  on an absent or empty request, the exact match, the prefix loop, the final fallback.
\<close>

datatype returnSite = AbsentReturn | ExactReturn | PrefixReturn | FallbackReturn

definition returnSite :: "string option \<Rightarrow> string list \<Rightarrow> returnSite" where
  "returnSite lng supported =
     (case lng of
        None \<Rightarrow> AbsentReturn
      | Some l \<Rightarrow>
          if l = [] then AbsentReturn
          else let low = toLowerCase l in
            if arrayIncludes supported low then ExactReturn
            else (case prefixScan low supported of
                    Some s \<Rightarrow> PrefixReturn
                  | None \<Rightarrow> FallbackReturn))"

section \<open>The provider\<close>

text \<open>
  The props of \<^verbatim>\<open>LocaleProvider\<close> with their defaults.
\<close>

record config =
  supportedLanguages :: "string list"
  fallbackLanguage :: string
  storageKey :: string

definition defaultConfig :: config where
  "defaultConfig =
     \<lparr>supportedLanguages = [''en''], fallbackLanguage = ''en'', storageKey = ''language''\<rparr>"

text \<open>
  The prop \<^verbatim>\<open>i18n\<close> is the translation engine, an object of type \<^verbatim>\<open>any\<close>: the
  provider reads its property \<^verbatim>\<open>language\<close> and calls its method
  \<^verbatim>\<open>changeLanguage\<close>. The engine's own state has an arbitrary type \<open>'e\<close>; the method
  returns the engine's next state and, when it throws, the value thrown (of type \<open>'x\<close>).
\<close>

record ('e, 'x) i18n =
  language :: "'e \<Rightarrow> string option"
  changeLanguage :: "string \<Rightarrow> 'e \<Rightarrow> 'x option \<times> 'e"

text \<open>
  What the provider reads and writes: the React state cell \<open>languageState\<close>, the engine,
  \<^verbatim>\<open>localStorage\<close> (\<open>None\<close> where \<^verbatim>\<open>typeof window === 'undefined'\<close>) and
  \<^verbatim>\<open>document.documentElement.lang\<close> (\<open>None\<close> where
  \<^verbatim>\<open>typeof document === 'undefined'\<close>).
\<close>

record 'e store =
  languageState :: string
  engine :: 'e
  localStorage :: "(string \<rightharpoonup> string) option"
  documentLang :: "string option"

text \<open>\<^verbatim>\<open>x || undefined\<close> on a string or absent value: the empty string is falsy.\<close>

definition truthy :: "string option \<Rightarrow> string option" where
  "truthy v = (case v of None \<Rightarrow> None | Some s \<Rightarrow> if s = [] then None else Some s)"

text \<open>
  \<^verbatim>\<open>i18n.language || (typeof window !== 'undefined'
      ? localStorage.getItem(storageKey) || undefined : undefined)\<close>
\<close>

definition initialRequest ::
  "('e, 'x) i18n \<Rightarrow> config \<Rightarrow> 'e \<Rightarrow> (string \<rightharpoonup> string) option \<Rightarrow> string option" where
  "initialRequest i cfg e ls =
     (case truthy (language i e) of
        Some l \<Rightarrow> Some l
      | None \<Rightarrow>
          (case ls of
             Some items \<Rightarrow> truthy (items (storageKey cfg))
           | None \<Rightarrow> None))"

text \<open>
  The first render of \<^verbatim>\<open>LocaleProvider\<close>: \<^verbatim>\<open>useState(initial)\<close>, then the effect
  that copies the state to the document where there is one.
\<close>

definition LocaleProvider ::
  "('e, 'x) i18n \<Rightarrow> config \<Rightarrow> 'e \<Rightarrow> (string \<rightharpoonup> string) option \<Rightarrow> string option \<Rightarrow> 'e store" where
  "LocaleProvider i cfg e ls doc =
     (let initial = normalizeLng (initialRequest i cfg e ls)
                      (supportedLanguages cfg) (fallbackLanguage cfg)
      in \<lparr>languageState = initial, engine = e, localStorage = ls,
          documentLang = map_option (\<lambda>_. initial) doc\<rparr>)"

text \<open>
  \<^verbatim>\<open>setLanguage(lng)\<close>, statement by statement. The first component of the result is the
  value thrown, if any; the second is the store as the call leaves it. A throw of
  \<^verbatim>\<open>i18n.changeLanguage(norm)\<close> is not caught, so the statements after it do not run.
  The engine acts on its own state only; the writes to \<^verbatim>\<open>localStorage\<close> and to the
  document are taken to succeed.
\<close>

definition setLanguage ::
  "('e, 'x) i18n \<Rightarrow> config \<Rightarrow> string \<Rightarrow> 'e store \<Rightarrow> 'x option \<times> 'e store" where
  "setLanguage i cfg lng st =
     (let norm = normalizeLng (Some lng) (supportedLanguages cfg) (fallbackLanguage cfg) in
      case changeLanguage i norm (engine st) of
        (Some x, e') \<Rightarrow> (Some x, st\<lparr>engine := e'\<rparr>)
      | (None, e') \<Rightarrow>
          (None, st\<lparr>engine := e',
                    languageState := norm,
                    localStorage := map_option (\<lambda>items. items(storageKey cfg \<mapsto> norm))
                                      (localStorage st),
                    documentLang := map_option (\<lambda>_. norm) (documentLang st)\<rparr>))"

text \<open>
  A sequence of calls of \<^verbatim>\<open>setLanguage\<close> from event handlers, one after the other; a
  call that throws ends its own handler and the next call finds the store as that call
  left it.
\<close>

fun setLanguages :: "('e, 'x) i18n \<Rightarrow> config \<Rightarrow> string list \<Rightarrow> 'e store \<Rightarrow> 'e store" where
  "setLanguages i cfg [] st = st"
| "setLanguages i cfg (lng # lngs) st = setLanguages i cfg lngs (snd (setLanguage i cfg lng st))"

text \<open>
  The request that the calls of a sequence leave in force: the last one whose engine
  call returned, or the request \<open>r\<close> in force before the sequence when there is none.
\<close>

fun lastRequested ::
  "('e, 'x) i18n \<Rightarrow> config \<Rightarrow> string list \<Rightarrow> 'e store \<Rightarrow> string option \<Rightarrow> string option" where
  "lastRequested i cfg [] st r = r"
| "lastRequested i cfg (lng # lngs) st r =
     (case setLanguage i cfg lng st of
        (Some x, st') \<Rightarrow> lastRequested i cfg lngs st' r
      | (None, st') \<Rightarrow> lastRequested i cfg lngs st' (Some lng))"

section \<open>The hook\<close>

text \<open>
  \<^verbatim>\<open>createContext(undefined)\<close> and \<^verbatim>\<open>useContext\<close>: the value of the nearest enclosing
  provider, or the default \<open>undefined\<close> when no provider encloses the caller. The list
  holds the values of the enclosing providers, the nearest first. A provider's value is
  an object, hence truthy.
\<close>

record contextValue =
  ctxLanguage :: string
  ctxSupportedLanguages :: "string list"

datatype error = Error string

definition useContext :: "'a list \<Rightarrow> 'a option" where
  "useContext providers = (case providers of [] \<Rightarrow> None | v # _ \<Rightarrow> Some v)"

definition useLocale :: "contextValue list \<Rightarrow> error + contextValue" where
  "useLocale providers =
     (case useContext providers of
        None \<Rightarrow> Inl (Error ''useLocale must be used within LocaleProvider'')
      | Some ctx \<Rightarrow> Inr ctx)"

section \<open>Engines for the examples\<close>

text \<open>
  Three engines whose state is their active language: one accepts every change, one has
  no resources for \<open>fr\<close> and throws there, one throws at every change.
\<close>

definition acceptingEngine :: "(string option, string) i18n" where
  "acceptingEngine =
     \<lparr>language = (\<lambda>e. e), changeLanguage = (\<lambda>norm e. (None, Some norm))\<rparr>"

definition selectiveEngine :: "(string option, string) i18n" where
  "selectiveEngine =
     \<lparr>language = (\<lambda>e. e),
      changeLanguage = (\<lambda>norm e. if norm = ''fr'' then (Some ''no resources'', e)
                                   else (None, Some norm))\<rparr>"

definition throwingEngine :: "(string option, string) i18n" where
  "throwingEngine =
     \<lparr>language = (\<lambda>e. e), changeLanguage = (\<lambda>norm e. (Some ''engine failure'', e))\<rparr>"

definition scenarioConfig :: config where
  "scenarioConfig =
     \<lparr>supportedLanguages = [''en'', ''es'', ''fr''], fallbackLanguage = ''en'',
      storageKey = ''language''\<rparr>"

section \<open>Case mapping lemmas\<close>

lemma toLowerChar_idem: "toLowerChar (toLowerChar c) = toLowerChar c"
  by (simp add: toLowerChar_def Let_def)

lemma toLowerCase_idem: "toLowerCase (toLowerCase str) = toLowerCase str"
  by (simp add: toLowerCase_def toLowerChar_idem)

lemma toLowerCase_Nil_iff: "toLowerCase str = [] \<longleftrightarrow> str = []"
  by (simp add: toLowerCase_def)

text \<open>
  An ASCII string in lower case is the lower-case form of its upper-case form. (Not so
  beyond ASCII, hence the condition.)
\<close>

lemma toLowerChar_toUpperChar:
  "(of_char c :: nat) < 128 \<Longrightarrow> toLowerChar c = c \<Longrightarrow> toLowerChar (toUpperChar c) = c"
  by (auto simp add: toLowerChar_def toUpperChar_def Let_def split: if_splits)

lemma toLowerCase_toUpperCase:
  "isAscii str \<Longrightarrow> toLowerCase str = str \<Longrightarrow> toLowerCase (toUpperCase str) = str"
  by (induction str)
    (auto simp add: isAscii_def toLowerCase_def toUpperCase_def toLowerChar_toUpperChar)

lemma toUpperCase_Nil_iff: "toUpperCase str = [] \<longleftrightarrow> str = []"
  by (simp add: toUpperCase_def)

text \<open>An initial segment of a string in lower case is in lower case.\<close>

lemma startsWith_lower:
  assumes "startsWith low s" and "toLowerCase low = low"
  shows "toLowerCase s = s"
proof -
  from assms(1) obtain rest where "low = s @ rest"
    by (auto simp add: startsWith_def prefix_def)
  with assms(2) show ?thesis
    by (simp add: toLowerCase_def)
qed

section \<open>The prefix loop\<close>

lemma prefixScan_Some:
  "prefixScan low ss = Some s \<Longrightarrow> s \<in> set ss \<and> startsWith low s"
  by (induction ss) (auto split: if_splits)

lemma prefixScan_None:
  "prefixScan low ss = None \<longleftrightarrow> (\<forall>s \<in> set ss. \<not> startsWith low s)"
  by (induction ss) auto

lemma prefixScan_first:
  "\<forall>x \<in> set pre. \<not> startsWith low x \<Longrightarrow> startsWith low s \<Longrightarrow>
   prefixScan low (pre @ s # post) = Some s"
  by (induction pre) auto

section \<open>Lemmas on the normalizer\<close>

lemma normalizeLng_member:
  "normalizeLng lng supported fallback \<in> insert fallback (set supported)"
  by (auto simp add: normalizeLng_def arrayIncludes_def Let_def
      split: option.splits dest: prefixScan_Some)

lemma normalizeLng_exact:
  "l \<noteq> [] \<Longrightarrow> toLowerCase l \<in> set supported \<Longrightarrow>
   normalizeLng (Some l) supported fallback = toLowerCase l"
  by (simp add: normalizeLng_def arrayIncludes_def)

lemma normalizeLng_lower_fixed:
  assumes "s \<noteq> []" and "toLowerCase s = s" and "s \<in> set supported"
  shows "normalizeLng (Some s) supported fallback = s"
  using assms by (simp add: normalizeLng_def arrayIncludes_def)

lemma returnSite_value:
  "normalizeLng lng supported fallback =
     (case returnSite lng supported of
        AbsentReturn \<Rightarrow> fallback
      | ExactReturn \<Rightarrow> toLowerCase (the lng)
      | PrefixReturn \<Rightarrow> the (prefixScan (toLowerCase (the lng)) supported)
      | FallbackReturn \<Rightarrow> fallback)"
  by (simp add: normalizeLng_def returnSite_def Let_def split: option.splits)

section \<open>The scenario of the specification\<close>

text \<open>
  C6. With the supported list \<open>en, es, fr\<close> and the fallback \<open>en\<close>, the request \<open>en-US\<close>
  resolves to \<open>en\<close>, \<open>ES\<close> to \<open>es\<close>, \<open>de\<close> to \<open>en\<close>, and the absent and the empty request
  to \<open>en\<close>. For any supported list and fallback, the absent and the empty request
  resolve to the fallback.
\<close>

theorem normalizeLng_scenario:
  "normalizeLng (Some ''en-US'') [''en'', ''es'', ''fr''] ''en'' = ''en'' \<and>
   normalizeLng (Some ''ES'') [''en'', ''es'', ''fr''] ''en'' = ''es'' \<and>
   normalizeLng (Some ''de'') [''en'', ''es'', ''fr''] ''en'' = ''en'' \<and>
   normalizeLng None [''en'', ''es'', ''fr''] ''en'' = ''en'' \<and>
   normalizeLng (Some []) [''en'', ''es'', ''fr''] ''en'' = ''en'' \<and>
   normalizeLng None supported fallback = fallback \<and>
   normalizeLng (Some []) supported fallback = fallback"
proof -
  have "normalizeLng (Some ''en-US'') [''en'', ''es'', ''fr''] ''en'' = ''en''"
    by code_simp
  moreover have "normalizeLng (Some ''ES'') [''en'', ''es'', ''fr''] ''en'' = ''es''"
    by code_simp
  moreover have "normalizeLng (Some ''de'') [''en'', ''es'', ''fr''] ''en'' = ''en''"
    by code_simp
  moreover have "normalizeLng None S F = F" for S F
    by (simp add: normalizeLng_def)
  moreover have "normalizeLng (Some []) S F = F" for S F
    by (simp add: normalizeLng_def)
  ultimately show ?thesis
    by blast
qed

section \<open>The fallback\<close>

text \<open>
  C5. A request whose lower-case form is no element of the supported list and starts
  with no element of it resolves to the fallback, the very string that was configured:
  neither the fallback nor the elements of the list are case-folded. The normalizer is
  a total function.
\<close>

theorem normalizeLng_fallback:
  assumes "toLowerCase t \<notin> set supported"
    and "\<forall>s \<in> set supported. \<not> startsWith (toLowerCase t) s"
  shows "normalizeLng (Some t) supported fallback = fallback"
proof -
  from assms(2) have "prefixScan (toLowerCase t) supported = None"
    by (simp add: prefixScan_None)
  with assms(1) show ?thesis
    by (simp add: normalizeLng_def arrayIncludes_def)
qed

theorem normalizeLng_fallback_witness:
  "toLowerCase ''en'' \<notin> set [''EN'', ''Fr''] \<and>
   normalizeLng (Some ''en'') [''EN'', ''Fr''] ''De'' = ''De''"
proof -
  have h1: "toLowerCase ''en'' \<notin> set [''EN'', ''Fr'']"
    by code_simp
  have h2: "\<forall>s \<in> set [''EN'', ''Fr'']. \<not> startsWith (toLowerCase ''en'') s"
    by code_simp
  from normalizeLng_fallback [OF h1 h2, of "''De''"] h1 h2 show ?thesis
    by blast
qed

section \<open>The prefix match\<close>

text \<open>
  C4. When the lower-case form of the request is no element of the supported list and
  starts with some element of it, the normalizer returns the first such element in the
  order of the list. The test is on the raw initial segment, with no separator after
  it: the supported \<open>es\<close> answers the request \<open>esperanto\<close>.
\<close>

theorem normalizeLng_prefix:
  assumes "toLowerCase t \<notin> set supported"
    and "supported = pre @ s # post"
    and "\<forall>x \<in> set pre. \<not> startsWith (toLowerCase t) x"
    and "startsWith (toLowerCase t) s"
  shows "normalizeLng (Some t) supported fallback = s"
proof -
  have "t \<noteq> []"
  proof
    assume "t = []"
    with assms(4) have "s = []"
      by (simp add: startsWith_def toLowerCase_def)
    with assms(1,2) \<open>t = []\<close> show False
      by (simp add: toLowerCase_def)
  qed
  moreover from assms(2,3,4) have "prefixScan (toLowerCase t) supported = Some s"
    by (simp add: prefixScan_first)
  ultimately show ?thesis
    using assms(1) by (simp add: normalizeLng_def arrayIncludes_def)
qed

theorem normalizeLng_prefix_witness:
  "toLowerCase ''esperanto'' \<notin> set [''en'', ''es'', ''fr''] \<and>
   [''en'', ''es'', ''fr''] = [''en''] @ ''es'' # [''fr''] \<and>
   \<not> startsWith (toLowerCase ''esperanto'') ''en'' \<and>
   startsWith (toLowerCase ''esperanto'') ''es'' \<and>
   normalizeLng (Some ''esperanto'') [''en'', ''es'', ''fr''] ''en'' = ''es''"
proof -
  have h1: "toLowerCase ''esperanto'' \<notin> set [''en'', ''es'', ''fr'']"
    by code_simp
  have h2: "[''en'', ''es'', ''fr''] = [''en''] @ ''es'' # [''fr'']"
    by simp
  have h3: "\<forall>x \<in> set [''en'']. \<not> startsWith (toLowerCase ''esperanto'') x"
    by code_simp
  have h4: "startsWith (toLowerCase ''esperanto'') ''es''"
    by code_simp
  have h5: "\<not> startsWith (toLowerCase ''esperanto'') ''en''"
    by code_simp
  from normalizeLng_prefix [OF h1 h2 h3 h4, of "''en''"] h1 h2 h4 h5 show ?thesis
    by blast
qed

section \<open>Supported tags\<close>

text \<open>
  C3, as amended. The specification claims that every element \<open>t\<close> of the supported
  list resolves to itself, and so does its upper-case form, whether or not \<open>t\<close> is in
  lower case. The source compares the lower-cased request with the elements as they are
  configured, so an element resolves to itself when it is not empty and is in lower
  case; and when such an element is moreover an ASCII string, its upper-case form
  resolves to it too.
\<close>

theorem normalizeLng_supported:
  assumes "t \<in> set supported" and "t \<noteq> []" and "toLowerCase t = t"
  shows "normalizeLng (Some t) supported fallback = t \<and>
         (isAscii t \<longrightarrow> normalizeLng (Some (toUpperCase t)) supported fallback = t)"
proof (intro conjI impI)
  from assms show "normalizeLng (Some t) supported fallback = t"
    by (simp add: normalizeLng_lower_fixed)
next
  assume "isAscii t"
  with assms(3) have "toLowerCase (toUpperCase t) = t"
    by (simp add: toLowerCase_toUpperCase)
  moreover from assms(2) have "toUpperCase t \<noteq> []"
    by (simp add: toUpperCase_Nil_iff)
  ultimately show "normalizeLng (Some (toUpperCase t)) supported fallback = t"
    using assms(1) by (simp add: normalizeLng_def arrayIncludes_def)
qed

theorem normalizeLng_supported_witness:
  "''fr'' \<in> set [''en'', ''fr''] \<and> ''fr'' \<noteq> [] \<and> toLowerCase ''fr'' = ''fr'' \<and>
   toUpperCase ''fr'' = ''FR'' \<and>
   normalizeLng (Some ''fr'') [''en'', ''fr''] ''en'' = ''fr'' \<and>
   normalizeLng (Some (toUpperCase ''fr'')) [''en'', ''fr''] ''en'' = ''fr''"
proof -
  have h1: "''fr'' \<in> set [''en'', ''fr'']"
    by simp
  have h2: "''fr'' \<noteq> []"
    by simp
  have h3: "toLowerCase ''fr'' = ''fr''"
    by code_simp
  have h4: "isAscii ''fr''"
    by code_simp
  have u: "toUpperCase ''fr'' = ''FR''"
    by code_simp
  from normalizeLng_supported [OF h1 h2 h3, of "''en''"] h1 h2 h3 h4 u show ?thesis
    by blast
qed

text \<open>
  The claim as stated fails for a supported element with an upper-case letter: with the
  list \<open>EN\<close> and the fallback \<open>fr\<close>, the request \<open>EN\<close> resolves to \<open>fr\<close>.
\<close>

theorem normalizeLng_supported_counterexample:
  "''EN'' \<in> set [''EN''] \<and> normalizeLng (Some ''EN'') [''EN''] ''fr'' \<noteq> ''EN''"
proof -
  have "normalizeLng (Some ''EN'') [''EN''] ''fr'' = ''fr''"
    by code_simp
  then show ?thesis
    by simp
qed

text \<open>An empty supported element is not returned for the empty request either.\<close>

lemma empty_tag_in_supported_unreturned:
  "[] \<in> set [[], ''en''] \<and> normalizeLng (Some []) [[], ''en''] ''en'' \<noteq> []"
  by (simp add: normalizeLng_def)

section \<open>Idempotence\<close>

text \<open>
  C2, as amended. The specification claims that normalizing a result again gives the
  same result, with no condition on the supported list or the fallback. It holds when
  the fallback resolves to itself and the supported list has no empty element (or the
  fallback is empty too).
\<close>

theorem normalizeLng_idempotent:
  assumes "normalizeLng (Some fallback) supported fallback = fallback"
    and "[] \<in> set supported \<longrightarrow> fallback = []"
  shows "normalizeLng (Some (normalizeLng lng supported fallback)) supported fallback =
         normalizeLng lng supported fallback"
proof (cases "returnSite lng supported")
  case AbsentReturn
  then have "normalizeLng lng supported fallback = fallback"
    by (simp add: returnSite_value)
  with assms(1) show ?thesis
    by simp
next
  case FallbackReturn
  then have "normalizeLng lng supported fallback = fallback"
    by (simp add: returnSite_value)
  with assms(1) show ?thesis
    by simp
next
  case ExactReturn
  then obtain l where l: "lng = Some l" "l \<noteq> []" "toLowerCase l \<in> set supported"
    by (auto simp add: returnSite_def arrayIncludes_def Let_def
        split: option.splits if_splits)
  then have "normalizeLng lng supported fallback = toLowerCase l"
    by (simp add: normalizeLng_exact)
  moreover from l have "normalizeLng (Some (toLowerCase l)) supported fallback = toLowerCase l"
    by (intro normalizeLng_lower_fixed) (simp_all add: toLowerCase_idem toLowerCase_Nil_iff)
  ultimately show ?thesis
    by simp
next
  case PrefixReturn
  then obtain l s where l: "lng = Some l" "l \<noteq> []" "toLowerCase l \<notin> set supported"
    "prefixScan (toLowerCase l) supported = Some s"
    by (auto simp add: returnSite_def arrayIncludes_def Let_def
        split: option.splits if_splits)
  then have r: "normalizeLng lng supported fallback = s"
    by (simp add: normalizeLng_def arrayIncludes_def)
  from l(4) have s: "s \<in> set supported" "startsWith (toLowerCase l) s"
    by (auto dest: prefixScan_Some)
  show ?thesis
  proof (cases "s = []")
    case True
    with s(1) assms(2) have "fallback = []"
      by simp
    with True r show ?thesis
      by (simp add: normalizeLng_def)
  next
    case False
    from s(2) have "toLowerCase s = s"
      by (rule startsWith_lower) (simp add: toLowerCase_idem)
    with False s(1) have "normalizeLng (Some s) supported fallback = s"
      by (simp add: normalizeLng_lower_fixed)
    with r show ?thesis
      by simp
  qed
qed

theorem normalizeLng_idempotent_witness:
  "normalizeLng (Some ''en'') [''en'', ''es''] ''en'' = ''en'' \<and>
   [] \<notin> set [''en'', ''es''] \<and>
   normalizeLng (Some (normalizeLng (Some ''ES-mx'') [''en'', ''es''] ''en'')) [''en'', ''es''] ''en'' =
     normalizeLng (Some ''ES-mx'') [''en'', ''es''] ''en'' \<and>
   normalizeLng (Some ''ES-mx'') [''en'', ''es''] ''en'' = ''es''"
proof -
  have h1: "normalizeLng (Some ''en'') [''en'', ''es''] ''en'' = ''en''"
    by code_simp
  have h2: "[] \<in> set [''en'', ''es''] \<longrightarrow> ''en'' = []"
    by simp
  have v: "normalizeLng (Some ''ES-mx'') [''en'', ''es''] ''en'' = ''es''"
    by code_simp
  have h3: "[] \<notin> set [''en'', ''es'']"
    by simp
  from normalizeLng_idempotent [OF h1 h2, of "Some ''ES-mx''"] h1 h3 v show ?thesis
    by blast
qed

text \<open>
  The claim as stated fails for a fallback with an upper-case letter: with the list
  \<open>en\<close> and the fallback \<open>EN\<close>, the request \<open>de\<close> resolves to \<open>EN\<close>, which resolves to
  \<open>en\<close>.
\<close>

theorem normalizeLng_idempotent_counterexample:
  "normalizeLng (Some (normalizeLng (Some ''de'') [''en''] ''EN'')) [''en''] ''EN'' \<noteq>
   normalizeLng (Some ''de'') [''en''] ''EN''"
proof -
  have "normalizeLng (Some ''de'') [''en''] ''EN'' = ''EN''"
    by code_simp
  moreover have "normalizeLng (Some ''EN'') [''en''] ''EN'' = ''en''"
    by code_simp
  ultimately show ?thesis
    by simp
qed

text \<open>
  Both conditions are needed, also for a configuration in lower case: a fallback that
  starts with a supported element does not resolve to itself, and an empty supported
  element is returned by the prefix loop and then resolves to the fallback.
\<close>

lemma prefixed_fallback_not_fixed:
  "normalizeLng (Some (normalizeLng (Some ''de'') [''en''] ''en-us'')) [''en''] ''en-us'' \<noteq>
   normalizeLng (Some ''de'') [''en''] ''en-us''"
proof -
  have "normalizeLng (Some ''de'') [''en''] ''en-us'' = ''en-us''"
    by code_simp
  moreover have "normalizeLng (Some ''en-us'') [''en''] ''en-us'' = ''en''"
    by code_simp
  ultimately show ?thesis
    by simp
qed

lemma empty_supported_element_not_fixed:
  "normalizeLng (Some (normalizeLng (Some ''de'') [[]] ''en'')) [[]] ''en'' \<noteq>
   normalizeLng (Some ''de'') [[]] ''en''"
proof -
  have "normalizeLng (Some ''de'') [[]] ''en'' = []"
    by code_simp
  moreover have "normalizeLng (Some []) [[]] ''en'' = ''en''"
    by code_simp
  ultimately show ?thesis
    by simp
qed

section \<open>Results of the two match branches\<close>

text \<open>
  C10. When the normalizer returns from the exact match or from the prefix loop, the
  string returned is equal to its own lower-case form; so a supported element with an
  upper-case letter is never the value returned by either of the two.
\<close>

theorem normalizeLng_match_lowercase:
  assumes "returnSite lng supported = ExactReturn \<or> returnSite lng supported = PrefixReturn"
  shows "toLowerCase (normalizeLng lng supported fallback) = normalizeLng lng supported fallback \<and>
         (\<forall>s \<in> set supported. toLowerCase s \<noteq> s \<longrightarrow> normalizeLng lng supported fallback \<noteq> s)"
proof -
  have "toLowerCase (normalizeLng lng supported fallback) = normalizeLng lng supported fallback"
    using assms
  proof
    assume "returnSite lng supported = ExactReturn"
    then show ?thesis
      by (simp add: returnSite_value toLowerCase_idem)
  next
    assume "returnSite lng supported = PrefixReturn"
    then obtain l s where l: "lng = Some l" "prefixScan (toLowerCase l) supported = Some s"
      by (auto simp add: returnSite_def Let_def split: option.splits if_splits)
    from l(2) have "startsWith (toLowerCase l) s"
      by (auto dest: prefixScan_Some)
    then have "toLowerCase s = s"
      by (rule startsWith_lower) (simp add: toLowerCase_idem)
    with l \<open>returnSite lng supported = PrefixReturn\<close> show ?thesis
      by (simp add: returnSite_value)
  qed
  then show ?thesis
    by auto
qed

theorem normalizeLng_match_lowercase_witness:
  "(returnSite (Some ''EN-us'') [''EN'', ''en''] = ExactReturn \<or>
    returnSite (Some ''EN-us'') [''EN'', ''en''] = PrefixReturn) \<and>
   normalizeLng (Some ''EN-us'') [''EN'', ''en''] ''De'' = ''en'' \<and>
   toLowerCase (normalizeLng (Some ''EN-us'') [''EN'', ''en''] ''De'') =
     normalizeLng (Some ''EN-us'') [''EN'', ''en''] ''De'' \<and>
   ''EN'' \<in> set [''EN'', ''en''] \<and> toLowerCase ''EN'' \<noteq> ''EN'' \<and>
   normalizeLng (Some ''EN-us'') [''EN'', ''en''] ''De'' \<noteq> ''EN''"
proof -
  have h: "returnSite (Some ''EN-us'') [''EN'', ''en''] = ExactReturn \<or>
    returnSite (Some ''EN-us'') [''EN'', ''en''] = PrefixReturn"
    by code_simp
  have v: "normalizeLng (Some ''EN-us'') [''EN'', ''en''] ''De'' = ''en''"
    by code_simp
  have m: "''EN'' \<in> set [''EN'', ''en'']"
    by simp
  have u: "toLowerCase ''EN'' \<noteq> ''EN''"
    by code_simp
  from normalizeLng_match_lowercase [OF h, of "''De''"] h v m u show ?thesis
    by blast
qed

section \<open>The store\<close>

lemma setLanguage_languageState:
  "languageState (snd (setLanguage i cfg lng st)) =
     (case fst (changeLanguage i (normalizeLng (Some lng) (supportedLanguages cfg)
                  (fallbackLanguage cfg)) (engine st)) of
        Some x \<Rightarrow> languageState st
      | None \<Rightarrow> normalizeLng (Some lng) (supportedLanguages cfg) (fallbackLanguage cfg))"
  by (simp add: setLanguage_def Let_def split: prod.splits option.splits)

lemma setLanguages_lastRequested:
  "languageState st = normalizeLng r (supportedLanguages cfg) (fallbackLanguage cfg) \<Longrightarrow>
   languageState (setLanguages i cfg lngs st) =
     normalizeLng (lastRequested i cfg lngs st r) (supportedLanguages cfg) (fallbackLanguage cfg)"
proof (induction lngs arbitrary: st r)
  case Nil
  then show ?case by simp
next
  case (Cons lng lngs)
  obtain x st' where step: "setLanguage i cfg lng st = (x, st')"
    by (cases "setLanguage i cfg lng st")
  show ?case
  proof (cases x)
    case None
    with step have "languageState st' =
        normalizeLng (Some lng) (supportedLanguages cfg) (fallbackLanguage cfg)"
      by (auto simp add: setLanguage_def Let_def split: prod.splits option.splits)
    from Cons.IH [OF this] step None show ?thesis
      by simp
  next
    case (Some y)
    with step have "languageState st' = languageState st"
      by (auto simp add: setLanguage_def Let_def split: prod.splits option.splits)
    with Cons.prems have "languageState st' =
        normalizeLng r (supportedLanguages cfg) (fallbackLanguage cfg)"
      by simp
    from Cons.IH [OF this] step Some show ?thesis
      by simp
  qed
qed

lemma lastRequested_accepting:
  assumes "\<forall>norm e. fst (changeLanguage i norm e) = None" and "lngs \<noteq> []"
  shows "lastRequested i cfg lngs st r = Some (last lngs)"
  using assms(2)
proof (induction lngs arbitrary: st r)
  case Nil
  then show ?case by simp
next
  case (Cons lng lngs)
  obtain x st' where step: "setLanguage i cfg lng st = (x, st')"
    by (cases "setLanguage i cfg lng st")
  let ?norm = "normalizeLng (Some lng) (supportedLanguages cfg) (fallbackLanguage cfg)"
  from assms(1) have "fst (changeLanguage i ?norm (engine st)) = None"
    by simp
  then obtain e' where "changeLanguage i ?norm (engine st) = (None, e')"
    by (cases "changeLanguage i ?norm (engine st)") simp
  with step have x: "x = None"
    by (simp add: setLanguage_def Let_def)
  show ?case
  proof (cases "lngs = []")
    case True
    with step x show ?thesis by simp
  next
    case False
    with Cons.IH [of st' "Some lng"] step x show ?thesis
      by simp
  qed
qed

lemma LocaleProvider_languageState:
  "languageState (LocaleProvider i cfg e ls doc) =
     normalizeLng (initialRequest i cfg e ls) (supportedLanguages cfg) (fallbackLanguage cfg)"
  by (simp add: LocaleProvider_def Let_def)

text \<open>
  C1, as amended. After the construction and any sequence of calls of \<open>setLanguage\<close>,
  the current language is the normalizer's output for the request in force: the last
  request whose engine change did not throw, or the initial request of the construction
  when there is none. Hence it is the fallback or a supported tag, and it is never an
  unnormalized value. With an engine that never throws, the request in force is the
  last requested value.
\<close>

theorem store_language_normalized:
  "languageState (setLanguages i cfg lngs (LocaleProvider i cfg e ls doc)) =
     normalizeLng
       (lastRequested i cfg lngs (LocaleProvider i cfg e ls doc) (initialRequest i cfg e ls))
       (supportedLanguages cfg) (fallbackLanguage cfg) \<and>
   languageState (setLanguages i cfg lngs (LocaleProvider i cfg e ls doc))
     \<in> insert (fallbackLanguage cfg) (set (supportedLanguages cfg)) \<and>
   ((\<forall>norm e'. fst (changeLanguage i norm e') = None) \<longrightarrow> lngs \<noteq> [] \<longrightarrow>
      languageState (setLanguages i cfg lngs (LocaleProvider i cfg e ls doc)) =
        normalizeLng (Some (last lngs)) (supportedLanguages cfg) (fallbackLanguage cfg))"
proof -
  let ?st = "LocaleProvider i cfg e ls doc"
  have a: "languageState (setLanguages i cfg lngs ?st) =
     normalizeLng (lastRequested i cfg lngs ?st (initialRequest i cfg e ls))
       (supportedLanguages cfg) (fallbackLanguage cfg)"
    by (rule setLanguages_lastRequested) (rule LocaleProvider_languageState)
  then have b: "languageState (setLanguages i cfg lngs ?st)
     \<in> insert (fallbackLanguage cfg) (set (supportedLanguages cfg))"
    by (simp only: normalizeLng_member)
  have c: "languageState (setLanguages i cfg lngs ?st) =
        normalizeLng (Some (last lngs)) (supportedLanguages cfg) (fallbackLanguage cfg)"
    if "\<forall>norm e'. fst (changeLanguage i norm e') = None" and "lngs \<noteq> []"
    using a that by (simp add: lastRequested_accepting)
  from a b c show ?thesis
    by blast
qed

theorem store_language_normalized_witness:
  "[''es'', ''FR-ca''] \<noteq> [] \<and>
   languageState (setLanguages acceptingEngine scenarioConfig [''es'', ''FR-ca'']
     (LocaleProvider acceptingEngine scenarioConfig None None None)) = ''fr''"
proof -
  have h1: "\<forall>norm e'. fst (changeLanguage acceptingEngine norm e') = None"
    by (simp add: acceptingEngine_def)
  have h2: "[''es'', ''FR-ca''] \<noteq> ([] :: string list)"
    by simp
  have v: "normalizeLng (Some (last [''es'', ''FR-ca''])) (supportedLanguages scenarioConfig)
      (fallbackLanguage scenarioConfig) = ''fr''"
    by code_simp
  from store_language_normalized [of acceptingEngine scenarioConfig "[''es'', ''FR-ca'']"
      None None None] h1 h2
  have "languageState (setLanguages acceptingEngine scenarioConfig [''es'', ''FR-ca'']
     (LocaleProvider acceptingEngine scenarioConfig None None None)) =
     normalizeLng (Some (last [''es'', ''FR-ca''])) (supportedLanguages scenarioConfig)
      (fallbackLanguage scenarioConfig)"
    by blast
  from this v have "languageState (setLanguages acceptingEngine scenarioConfig [''es'', ''FR-ca'']
     (LocaleProvider acceptingEngine scenarioConfig None None None)) = ''fr''"
    by (rule trans)
  with h2 show ?thesis
    by blast
qed

text \<open>
  The specification's invariant names the last requested value; a request at which the
  engine throws leaves the language of the request before it.
\<close>

theorem store_language_normalized_counterexample:
  "languageState (setLanguages selectiveEngine scenarioConfig [''es'', ''fr'']
     (LocaleProvider selectiveEngine scenarioConfig None None None)) \<noteq>
   normalizeLng (Some (last [''es'', ''fr''])) (supportedLanguages scenarioConfig)
     (fallbackLanguage scenarioConfig)"
proof -
  have "languageState (setLanguages selectiveEngine scenarioConfig [''es'', ''fr'']
     (LocaleProvider selectiveEngine scenarioConfig None None None)) = ''es''"
    by code_simp
  moreover have "normalizeLng (Some (last [''es'', ''fr''])) (supportedLanguages scenarioConfig)
     (fallbackLanguage scenarioConfig) = ''fr''"
    by code_simp
  ultimately show ?thesis
    by simp
qed

section \<open>Construction\<close>

text \<open>
  C7. The initial current language is the normalizer's output for: the engine's active
  language when it has one (a non-empty string), otherwise the value persisted under
  the storage key when the persistence backend is there, otherwise the absent request.
  With no engine language and nothing persisted it is the fallback; with no engine
  language and \<open>es\<close> persisted, \<open>es\<close> being supported, it is \<open>es\<close>.
\<close>

theorem LocaleProvider_initial:
  "(language i e = Some l \<and> l \<noteq> [] \<longrightarrow>
      languageState (LocaleProvider i cfg e ls doc) =
        normalizeLng (Some l) (supportedLanguages cfg) (fallbackLanguage cfg)) \<and>
   ((language i e = None \<or> language i e = Some []) \<and> ls = Some items \<longrightarrow>
      languageState (LocaleProvider i cfg e ls doc) =
        normalizeLng (items (storageKey cfg)) (supportedLanguages cfg) (fallbackLanguage cfg)) \<and>
   ((language i e = None \<or> language i e = Some []) \<and> ls = None \<longrightarrow>
      languageState (LocaleProvider i cfg e ls doc) =
        normalizeLng None (supportedLanguages cfg) (fallbackLanguage cfg)) \<and>
   ((language i e = None \<or> language i e = Some []) \<and>
    (ls = None \<or> ls = Some items \<and> items (storageKey cfg) = None) \<longrightarrow>
      languageState (LocaleProvider i cfg e ls doc) = fallbackLanguage cfg) \<and>
   ((language i e = None \<or> language i e = Some []) \<and> ls = Some items \<and>
    items (storageKey cfg) = Some ''es'' \<and> ''es'' \<in> set (supportedLanguages cfg) \<longrightarrow>
      languageState (LocaleProvider i cfg e ls doc) = ''es'')"
proof -
  have low: "toLowerCase ''es'' = ''es''"
    by code_simp
  have empty: "normalizeLng (truthy v) S F = normalizeLng v S F" for v S F
    by (cases v) (simp_all add: truthy_def normalizeLng_def)
  have a: "languageState (LocaleProvider i cfg e ls doc) =
        normalizeLng (Some l) (supportedLanguages cfg) (fallbackLanguage cfg)"
    if "language i e = Some l" and "l \<noteq> []"
    using that by (simp add: LocaleProvider_languageState initialRequest_def truthy_def)
  have req: "initialRequest i cfg e ls =
        (case ls of None \<Rightarrow> None | Some items \<Rightarrow> truthy (items (storageKey cfg)))"
    if "language i e = None \<or> language i e = Some []"
    using that by (auto simp add: initialRequest_def truthy_def)
  have b: "languageState (LocaleProvider i cfg e ls doc) =
        normalizeLng (items (storageKey cfg)) (supportedLanguages cfg) (fallbackLanguage cfg)"
    if "language i e = None \<or> language i e = Some []" and "ls = Some items"
    using that req [OF that(1)] by (simp add: LocaleProvider_languageState empty)
  have c: "languageState (LocaleProvider i cfg e ls doc) =
        normalizeLng None (supportedLanguages cfg) (fallbackLanguage cfg)"
    if "language i e = None \<or> language i e = Some []" and "ls = None"
    using that req [OF that(1)] by (simp add: LocaleProvider_languageState)
  have d: "languageState (LocaleProvider i cfg e ls doc) = fallbackLanguage cfg"
    if "language i e = None \<or> language i e = Some []"
      and "ls = None \<or> ls = Some items \<and> items (storageKey cfg) = None"
    using that b c by (auto simp add: normalizeLng_def)
  have f: "languageState (LocaleProvider i cfg e ls doc) = ''es''"
    if "language i e = None \<or> language i e = Some []" and "ls = Some items"
      and "items (storageKey cfg) = Some ''es''" and "''es'' \<in> set (supportedLanguages cfg)"
    using that b low by (simp add: normalizeLng_lower_fixed)
  from a b c d f show ?thesis
    by blast
qed

theorem LocaleProvider_initial_witness:
  "(language acceptingEngine None = None \<or> language acceptingEngine None = Some []) \<and>
   [''language'' \<mapsto> ''es''] (storageKey scenarioConfig) = Some ''es'' \<and>
   ''es'' \<in> set (supportedLanguages scenarioConfig) \<and>
   languageState (LocaleProvider acceptingEngine scenarioConfig None
     (Some [''language'' \<mapsto> ''es'']) None) = ''es''"
proof -
  have h1: "language acceptingEngine None = None \<or> language acceptingEngine None = Some []"
    by (simp add: acceptingEngine_def)
  have h2: "[''language'' \<mapsto> ''es''] (storageKey scenarioConfig) = Some ''es''"
    by (simp add: scenarioConfig_def)
  have h3: "''es'' \<in> set (supportedLanguages scenarioConfig)"
    by (simp add: scenarioConfig_def)
  from LocaleProvider_initial [of acceptingEngine None _ scenarioConfig
      "Some [''language'' \<mapsto> ''es'']" None "[''language'' \<mapsto> ''es'']"] h1 h2 h3
  show ?thesis
    by blast
qed

section \<open>A throwing engine\<close>

text \<open>
  C8. When the engine's change operation throws during \<open>setLanguage\<close>, the call throws
  the same value, and the current language, the persisted values and the document
  attribute are as they were before the call.
\<close>

theorem setLanguage_engine_throws:
  assumes "fst (changeLanguage i
             (normalizeLng (Some lng) (supportedLanguages cfg) (fallbackLanguage cfg))
             (engine st)) = Some x"
  shows "fst (setLanguage i cfg lng st) = Some x \<and>
         languageState (snd (setLanguage i cfg lng st)) = languageState st \<and>
         localStorage (snd (setLanguage i cfg lng st)) = localStorage st \<and>
         documentLang (snd (setLanguage i cfg lng st)) = documentLang st"
proof -
  let ?norm = "normalizeLng (Some lng) (supportedLanguages cfg) (fallbackLanguage cfg)"
  from assms obtain e' where "changeLanguage i ?norm (engine st) = (Some x, e')"
    by (cases "changeLanguage i ?norm (engine st)") simp
  then show ?thesis
    by (simp add: setLanguage_def Let_def)
qed

theorem setLanguage_engine_throws_witness:
  "fst (changeLanguage throwingEngine
     (normalizeLng (Some ''fr'') (supportedLanguages scenarioConfig)
        (fallbackLanguage scenarioConfig))
     (engine \<lparr>languageState = ''en'', engine = Some ''en'',
              localStorage = Some [''language'' \<mapsto> ''en''], documentLang = Some ''en''\<rparr>))
     = Some ''engine failure'' \<and>
   fst (setLanguage throwingEngine scenarioConfig ''fr''
     \<lparr>languageState = ''en'', engine = Some ''en'',
      localStorage = Some [''language'' \<mapsto> ''en''], documentLang = Some ''en''\<rparr>)
     = Some ''engine failure'' \<and>
   languageState (snd (setLanguage throwingEngine scenarioConfig ''fr''
     \<lparr>languageState = ''en'', engine = Some ''en'',
      localStorage = Some [''language'' \<mapsto> ''en''], documentLang = Some ''en''\<rparr>)) = ''en'' \<and>
   localStorage (snd (setLanguage throwingEngine scenarioConfig ''fr''
     \<lparr>languageState = ''en'', engine = Some ''en'',
      localStorage = Some [''language'' \<mapsto> ''en''], documentLang = Some ''en''\<rparr>))
     = Some [''language'' \<mapsto> ''en''] \<and>
   documentLang (snd (setLanguage throwingEngine scenarioConfig ''fr''
     \<lparr>languageState = ''en'', engine = Some ''en'',
      localStorage = Some [''language'' \<mapsto> ''en''], documentLang = Some ''en''\<rparr>)) = Some ''en''"
proof -
  let ?st = "\<lparr>languageState = ''en'', engine = Some ''en'',
      localStorage = Some [''language'' \<mapsto> ''en''], documentLang = Some ''en''\<rparr>"
  have h: "fst (changeLanguage throwingEngine
     (normalizeLng (Some ''fr'') (supportedLanguages scenarioConfig)
        (fallbackLanguage scenarioConfig)) (engine ?st)) = Some ''engine failure''"
    by (simp add: throwingEngine_def)
  from setLanguage_engine_throws [OF h] h show ?thesis
    by simp
qed

text \<open>When the engine's change operation returns, all three are set to the resolved tag.\<close>

lemma setLanguage_returns:
  assumes "fst (changeLanguage i
             (normalizeLng (Some lng) (supportedLanguages cfg) (fallbackLanguage cfg))
             (engine st)) = None"
  shows "fst (setLanguage i cfg lng st) = None \<and>
         languageState (snd (setLanguage i cfg lng st)) =
           normalizeLng (Some lng) (supportedLanguages cfg) (fallbackLanguage cfg) \<and>
         localStorage (snd (setLanguage i cfg lng st)) =
           map_option (\<lambda>items. items(storageKey cfg \<mapsto>
             normalizeLng (Some lng) (supportedLanguages cfg) (fallbackLanguage cfg)))
             (localStorage st) \<and>
         documentLang (snd (setLanguage i cfg lng st)) =
           map_option (\<lambda>_. normalizeLng (Some lng) (supportedLanguages cfg)
             (fallbackLanguage cfg)) (documentLang st)"
proof -
  let ?norm = "normalizeLng (Some lng) (supportedLanguages cfg) (fallbackLanguage cfg)"
  from assms obtain e' where "changeLanguage i ?norm (engine st) = (None, e')"
    by (cases "changeLanguage i ?norm (engine st)") simp
  then show ?thesis
    by (simp add: setLanguage_def Let_def)
qed

section \<open>The hook outside and inside a provider\<close>

text \<open>
  C9. Outside every provider \<open>useLocale\<close> throws an error, and it returns no value;
  inside a provider it returns the value of the nearest one and does not throw.
\<close>

theorem useLocale_provider:
  "useLocale [] = Inl (Error ''useLocale must be used within LocaleProvider'') \<and>
   useLocale (ctx # outer) = Inr ctx"
  by (simp add: useLocale_def useContext_def)

end
